theory Spec2Isabelle
  imports Complex_Main "HOL-Library.Sublist"
begin

section \<open>The stereo video publisher of \<^verbatim>\<open>video_pub.py\<close>\<close>

text \<open>
  The node reads one frame from each of two video files on every timer callback, wraps
  the two frames in image messages, stamps both with one clock reading, publishes them
  on the left and the right topic and counts the callback in \<^verbatim>\<open>frame_idx\<close>.
  The embedding follows the source statement by statement. The libraries the script
  calls (OpenCV, rclpy, cv_bridge) are not part of the repository; what the script
  relies on is written out below as small executable definitions.
\<close>

subsection \<open>Python floats\<close>

text \<open>
  A Python \<^verbatim>\<open>float\<close> is an IEEE double: a finite number, an infinity or NaN. A finite
  double is read as the real number it denotes; the rounding of a result and the sign of
  a zero are not modelled. The three operations are the ones \<^verbatim>\<open>__init__\<close> uses.
  Every comparison with NaN is false.
\<close>

datatype pyfloat = Finite real | PosInf | NegInf | NaN

text \<open>\<^verbatim>\<open>a < b\<close> and \<^verbatim>\<open>a <= b\<close>\<close>

fun py_lt :: "pyfloat \<Rightarrow> pyfloat \<Rightarrow> bool" where
  "py_lt NaN _ = False"
| "py_lt _ NaN = False"
| "py_lt (Finite x) (Finite y) = (x < y)"
| "py_lt PosInf _ = False"
| "py_lt _ NegInf = False"
| "py_lt _ _ = True"

fun py_le :: "pyfloat \<Rightarrow> pyfloat \<Rightarrow> bool" where
  "py_le NaN _ = False"
| "py_le _ NaN = False"
| "py_le (Finite x) (Finite y) = (x \<le> y)"
| "py_le _ PosInf = True"
| "py_le NegInf _ = True"
| "py_le _ _ = False"

text \<open>
  \<^verbatim>\<open>max(a, b)\<close>: the builtin keeps its first argument unless the second is greater, so
  \<^verbatim>\<open>max(nan, b)\<close> is NaN.
\<close>

definition py_max :: "pyfloat \<Rightarrow> pyfloat \<Rightarrow> pyfloat" where
  "py_max a b = (if py_lt a b then b else a)"

text \<open>The exceptions the script can raise, with their messages.\<close>

datatype error = RuntimeError string | ZeroDivisionError

text \<open>
  \<^verbatim>\<open>a / b\<close>: a zero divisor raises \<^verbatim>\<open>ZeroDivisionError\<close>; a NaN operand gives NaN; a
  finite number divided by an infinity is zero.
\<close>

fun py_div :: "pyfloat \<Rightarrow> pyfloat \<Rightarrow> error + pyfloat" where
  "py_div a (Finite y) =
     (if y = 0 then Inl ZeroDivisionError
      else Inr (case a of
                  Finite x \<Rightarrow> Finite (x / y)
                | PosInf \<Rightarrow> (if 0 < y then PosInf else NegInf)
                | NegInf \<Rightarrow> (if 0 < y then NegInf else PosInf)
                | NaN \<Rightarrow> NaN))"
| "py_div (Finite x) PosInf = Inr (Finite 0)"
| "py_div (Finite x) NegInf = Inr (Finite 0)"
| "py_div _ _ = Inr NaN"

subsection \<open>Frames, messages and log lines\<close>

text \<open>A decoded frame is opaque to the script; a clock reading is a number of ticks.\<close>

type_synonym frame = nat
type_synonym time = nat

text \<open>
  \<^verbatim>\<open>sensor_msgs.msg.Image\<close>, with the fields the script touches:
  \<^verbatim>\<open>header.stamp\<close>, \<^verbatim>\<open>header.frame_id\<close>, \<^verbatim>\<open>encoding\<close> and the pixel data.
\<close>

record Image =
  stamp :: time
  frame_id :: string
  encoding :: string
  data :: frame

text \<open>
  \<^verbatim>\<open>CvBridge.cv2_to_imgmsg(frame, encoding=...)\<close>: a fresh message around the frame, with
  an empty header.
\<close>

definition cv2_to_imgmsg :: "frame \<Rightarrow> string \<Rightarrow> Image" where
  "cv2_to_imgmsg f enc = \<lparr>stamp = 0, frame_id = [], encoding = enc, data = f\<rparr>"

text \<open>
  The lines written with \<^verbatim>\<open>get_logger().info\<close>, one constructor per format string:
  \<^verbatim>\<open>"StereoVideoPublisher started"\<close>, \<^verbatim>\<open>"Left:  {left_path}"\<close>,
  \<^verbatim>\<open>"Right: {right_path}"\<close>,
  \<^verbatim>\<open>"Publishing at {rate_hz:.2f} Hz starting frame {start_frame}"\<close>,
  \<^verbatim>\<open>"End of one of the videos. Stopping."\<close> and \<^verbatim>\<open>"Published frame {frame_idx}"\<close>.
\<close>

datatype log_line =
  Started
  | LeftPath string
  | RightPath string
  | PublishingAt pyfloat int
  | EndOfVideo
  | PublishedFrame int

subsection \<open>The video source\<close>

text \<open>
  Modelled from the spec: \<^verbatim>\<open>cv2.VideoCapture\<close> is OpenCV's, not the repository's. The
  handle is the spec's frame source: a sequence of decoded frames, the position of the
  next read, and whether the handle is open. Opening a path that cannot be decoded
  gives a handle that is not open; a read past the last frame (or on a closed handle)
  reports end of stream and leaves the handle as it is; a seek positions the next read;
  a release closes the handle and may be repeated.
\<close>

record VideoCapture =
  opened :: bool
  frames :: "frame list"
  pos :: nat

definition VideoCapture_open :: "(string \<Rightarrow> frame list option) \<Rightarrow> string \<Rightarrow> VideoCapture" where
  "VideoCapture_open files path =
     (case files path of
        None \<Rightarrow> \<lparr>opened = False, frames = [], pos = 0\<rparr>
      | Some fs \<Rightarrow> \<lparr>opened = True, frames = fs, pos = 0\<rparr>)"

definition isOpened :: "VideoCapture \<Rightarrow> bool" where
  "isOpened c = opened c"

text \<open>\<^verbatim>\<open>cap.set(cv2.CAP_PROP_POS_FRAMES, n)\<close>, called by the script with \<open>n > 0\<close> only.\<close>

definition set_pos_frames :: "VideoCapture \<Rightarrow> int \<Rightarrow> VideoCapture" where
  "set_pos_frames c n = c\<lparr>pos := nat n\<rparr>"

text \<open>
  \<^verbatim>\<open>ok, frame = cap.read()\<close>. The pair of the source is an option here: \<open>ok\<close> is true
  exactly when a frame comes back (\<open>Some\<close>), and the frame is \<^verbatim>\<open>None\<close> otherwise.
\<close>

definition read :: "VideoCapture \<Rightarrow> frame option \<times> VideoCapture" where
  "read c =
     (if opened c \<and> pos c < length (frames c)
      then (Some (frames c ! pos c), c\<lparr>pos := Suc (pos c)\<rparr>)
      else (None, c))"

definition release :: "VideoCapture \<Rightarrow> VideoCapture" where
  "release c = c\<lparr>opened := False\<rparr>"

subsection \<open>The node\<close>

text \<open>The four declared parameters, as \<^verbatim>\<open>get_parameter\<close> returns them.\<close>

record parameters =
  p_left_video :: string
  p_right_video :: string
  p_rate_hz :: pyfloat
  p_start_frame :: int

text \<open>
  The attributes of \<^verbatim>\<open>StereoVideoPublisher\<close>. The two publishers are the lists of the
  messages published on their topics, oldest first; \<open>logger\<close> is the list of the lines
  logged; \<open>context_ok\<close> is \<^verbatim>\<open>rclpy.ok()\<close>, the state of the rclpy context the node lives in
  (\<^verbatim>\<open>rclpy.shutdown()\<close> makes it false, and \<^verbatim>\<open>rclpy.spin\<close> runs callbacks only while it
  is true). \<open>dt\<close> is also the period of the timer that calls \<open>tick\<close>.
\<close>

record StereoVideoPublisher =
  rate_hz :: pyfloat
  start_frame :: int
  left_path :: string
  right_path :: string
  pub_left :: "Image list"
  pub_right :: "Image list"
  capL :: VideoCapture
  capR :: VideoCapture
  dt :: pyfloat
  frame_idx :: int
  logger :: "log_line list"
  context_ok :: bool

text \<open>\<^verbatim>\<open>self.dt = 1.0 / max(self.rate_hz, 0.1)\<close>\<close>

definition compute_dt :: "pyfloat \<Rightarrow> error + pyfloat" where
  "compute_dt rate = py_div (Finite 1) (py_max rate (Finite (1 / 10)))"

text \<open>
  \<^verbatim>\<open>StereoVideoPublisher.__init__\<close>. \<open>expanduser\<close> is \<^verbatim>\<open>str(Path(p).expanduser())\<close> and
  \<open>files\<close> says which paths OpenCV can open and what frames they hold. An exception
  leaves with the capture handles constructed so far, in the state they are in when it
  is raised. \<^verbatim>\<open>rclpy.init()\<close> has run before the constructor, so the context is ok.
\<close>

definition StereoVideoPublisher_init ::
  "parameters \<Rightarrow> (string \<Rightarrow> string) \<Rightarrow> (string \<Rightarrow> frame list option)
    \<Rightarrow> (error \<times> VideoCapture list) + StereoVideoPublisher" where
  "StereoVideoPublisher_init ps expanduser files =
     (let left = p_left_video ps;
          right = p_right_video ps;
          rate = p_rate_hz ps;
          start = p_start_frame ps
      in if left = [] \<or> right = []
         then Inl (RuntimeError ''You must pass left_video and right_video parameters.'', [])
         else
           let lp = expanduser left;
               rp = expanduser right;
               cL = VideoCapture_open files lp;
               cR = VideoCapture_open files rp
           in if \<not> isOpened cL
              then Inl (RuntimeError (''Cannot open left video: '' @ lp), [cL, cR])
              else if \<not> isOpened cR
              then Inl (RuntimeError (''Cannot open right video: '' @ rp), [cL, cR])
              else
                let cL' = (if start > 0 then set_pos_frames cL start else cL);
                    cR' = (if start > 0 then set_pos_frames cR start else cR)
                in case compute_dt rate of
                     Inl e \<Rightarrow> Inl (e, [cL', cR'])
                   | Inr d \<Rightarrow>
                       Inr \<lparr>rate_hz = rate, start_frame = start,
                            left_path = lp, right_path = rp,
                            pub_left = [], pub_right = [],
                            capL = cL', capR = cR',
                            dt = d, frame_idx = start,
                            logger = [Started, LeftPath lp, RightPath rp,
                                      PublishingAt rate start],
                            context_ok = True\<rparr>)"

text \<open>
  \<^verbatim>\<open>StereoVideoPublisher.tick\<close>, with the clock reading of \<^verbatim>\<open>get_clock().now()\<close> as its
  argument. Both reads come first; \<^verbatim>\<open>if not okL or not okR\<close> is the second branch of the
  case.
\<close>

definition tick :: "StereoVideoPublisher \<Rightarrow> time \<Rightarrow> StereoVideoPublisher" where
  "tick s now =
     (let (rL, cL) = read (capL s);
          (rR, cR) = read (capR s);
          s1 = s\<lparr>capL := cL, capR := cR\<rparr>
      in case (rL, rR) of
           (Some frameL, Some frameR) \<Rightarrow>
             let msgL = cv2_to_imgmsg frameL ''bgr8'';
                 msgR = cv2_to_imgmsg frameR ''bgr8'';
                 msgL = msgL\<lparr>stamp := now\<rparr>;
                 msgR = msgR\<lparr>stamp := now\<rparr>;
                 msgL = msgL\<lparr>frame_id := ''left_camera''\<rparr>;
                 msgR = msgR\<lparr>frame_id := ''right_camera''\<rparr>;
                 s2 = s1\<lparr>pub_left := pub_left s1 @ [msgL]\<rparr>;
                 s3 = s2\<lparr>pub_right := pub_right s2 @ [msgR]\<rparr>;
                 s4 = (if frame_idx s3 mod 30 = 0
                       then s3\<lparr>logger := logger s3 @ [PublishedFrame (frame_idx s3)]\<rparr>
                       else s3)
             in s4\<lparr>frame_idx := frame_idx s4 + 1\<rparr>
         | _ \<Rightarrow> s1\<lparr>logger := logger s1 @ [EndOfVideo], context_ok := False\<rparr>)"

text \<open>
  \<^verbatim>\<open>rclpy.spin(node)\<close>: while the context is ok, the timer fires and the executor calls
  \<open>tick\<close>. The list holds the clock readings of the timer's firings; when it is used up
  the operator has interrupted the process (\<^verbatim>\<open>KeyboardInterrupt\<close>).
\<close>

fun spin :: "StereoVideoPublisher \<Rightarrow> time list \<Rightarrow> StereoVideoPublisher" where
  "spin s [] = s"
| "spin s (now # ts) = (if context_ok s then spin (tick s now) ts else s)"

text \<open>
  What is left when \<^verbatim>\<open>main\<close> is over: the exception that left it, if any, the capture
  handles that were constructed, the messages on the two topics, and the context.
\<close>

record exit_state =
  raised :: "error option"
  handles :: "VideoCapture list"
  left_topic :: "Image list"
  right_topic :: "Image list"
  final_context_ok :: bool

text \<open>
  \<^verbatim>\<open>main\<close>. The node is constructed before the \<^verbatim>\<open>try\<close>, so an exception of the
  constructor leaves \<^verbatim>\<open>main\<close> at once; the \<^verbatim>\<open>finally\<close> block, which releases both
  handles and shuts the context down, runs only after \<^verbatim>\<open>spin\<close>.
\<close>

definition main ::
  "parameters \<Rightarrow> (string \<Rightarrow> string) \<Rightarrow> (string \<Rightarrow> frame list option) \<Rightarrow> time list
    \<Rightarrow> exit_state" where
  "main ps expanduser files clock =
     (case StereoVideoPublisher_init ps expanduser files of
        Inl (e, caps) \<Rightarrow>
          \<lparr>raised = Some e, handles = caps, left_topic = [], right_topic = [],
           final_context_ok = True\<rparr>
      | Inr node \<Rightarrow>
          let node' = spin node clock
          in \<lparr>raised = None,
              handles = [release (capL node'), release (capR node')],
              left_topic = pub_left node', right_topic = pub_right node',
              final_context_ok = False\<rparr>)"

subsection \<open>Predicates on the state of the node\<close>

text \<open>
  A state is at the end of a stream when the next read of the left or of the right
  source returns no frame: the condition \<^verbatim>\<open>not okL or not okR\<close> of \<open>tick\<close>.
\<close>

definition end_of_stream :: "StereoVideoPublisher \<Rightarrow> bool" where
  "end_of_stream s \<longleftrightarrow> fst (read (capL s)) = None \<or> fst (read (capR s)) = None"

text \<open>
  The two topics hold the same number of messages, and \<open>frame_idx\<close> is the start frame
  plus that number: the pair published while \<open>frame_idx\<close> is \<open>i\<close> is pair number
  \<open>i - start_frame\<close> on both topics.
\<close>

definition paired :: "StereoVideoPublisher \<Rightarrow> bool" where
  "paired s \<longleftrightarrow>
     length (pub_left s) = length (pub_right s) \<and>
     frame_idx s = start_frame s + int (length (pub_left s))"

subsection \<open>A configuration with two files\<close>

text \<open>
  A file system on which exactly \<^verbatim>\<open>left.mp4\<close> and \<^verbatim>\<open>right.mp4\<close> can be opened, with
  the given frames, and the parameters that name these two files.
\<close>

definition two_files :: "frame list \<Rightarrow> frame list \<Rightarrow> string \<Rightarrow> frame list option" where
  "two_files l r p =
     (if p = ''left.mp4'' then Some l else if p = ''right.mp4'' then Some r else None)"

definition stereo_parameters :: "pyfloat \<Rightarrow> int \<Rightarrow> parameters" where
  "stereo_parameters rate start =
     \<lparr>p_left_video = ''left.mp4'', p_right_video = ''right.mp4'',
      p_rate_hz = rate, p_start_frame = start\<rparr>"

text \<open>A node in the middle of a run, with the given handles, start frame and counter.\<close>

definition node_at :: "VideoCapture \<Rightarrow> VideoCapture \<Rightarrow> int \<Rightarrow> Image list \<Rightarrow> Image list \<Rightarrow> bool
    \<Rightarrow> StereoVideoPublisher" where
  "node_at cL cR start ls rs ok =
     \<lparr>rate_hz = Finite 10, start_frame = start,
      left_path = ''left.mp4'', right_path = ''right.mp4'',
      pub_left = ls, pub_right = rs, capL = cL, capR = cR,
      dt = Finite (1 / 10), frame_idx = start + int (length ls),
      logger = [], context_ok = ok\<rparr>"

text \<open>
  Two states of a run on a two-frame left file and a four-frame right file, from frame
  0: after the first pair, and after the second, when the left file is used up.
\<close>

definition left_msg :: "time \<Rightarrow> frame \<Rightarrow> Image" where
  "left_msg t f = \<lparr>stamp = t, frame_id = ''left_camera'', encoding = ''bgr8'', data = f\<rparr>"

definition right_msg :: "time \<Rightarrow> frame \<Rightarrow> Image" where
  "right_msg t f = \<lparr>stamp = t, frame_id = ''right_camera'', encoding = ''bgr8'', data = f\<rparr>"

definition mid_run :: StereoVideoPublisher where
  "mid_run =
     node_at \<lparr>opened = True, frames = [10, 11], pos = 1\<rparr>
             \<lparr>opened = True, frames = [20, 21, 22, 23], pos = 1\<rparr>
             0 [left_msg 5 10] [right_msg 5 20] True"

definition left_used_up :: StereoVideoPublisher where
  "left_used_up =
     node_at \<lparr>opened = True, frames = [10, 11], pos = 2\<rparr>
             \<lparr>opened = True, frames = [20, 21, 22, 23], pos = 2\<rparr>
             0 [left_msg 5 10, left_msg 6 11] [right_msg 5 20, right_msg 6 21] True"

text \<open>
  The state of another run after its first pair: the files have seven more frames in
  front and the run started at frame 7, so the counter is 8 where \<open>mid_run\<close> has 1. The
  next frames and the topics are those of \<open>mid_run\<close>.
\<close>

definition mid_run_from_7 :: StereoVideoPublisher where
  "mid_run_from_7 =
     node_at \<lparr>opened = True, frames = [0, 1, 2, 3, 4, 5, 6, 10, 11], pos = 8\<rparr>
             \<lparr>opened = True, frames = [0, 1, 2, 3, 4, 5, 6, 20, 21, 22, 23], pos = 8\<rparr>
             7 [left_msg 5 10] [right_msg 5 20] True"

section \<open>Properties\<close>

subsection \<open>One read, one tick\<close>

lemma read_fail_keeps: "fst (read c) = None \<Longrightarrow> snd (read c) = c"
  by (auto simp: read_def split: if_splits)

lemma read_ok_pos:
  "fst (read c) = Some f \<Longrightarrow>
     pos (snd (read c)) = Suc (pos c) \<and> f = frames c ! pos c \<and> pos c < length (frames c) \<and> opened c"
  by (auto simp: read_def split: if_splits)

lemma tick_eos:
  assumes "end_of_stream s"
  shows "tick s now = s\<lparr>capL := snd (read (capL s)), capR := snd (read (capR s)),
                         logger := logger s @ [EndOfVideo], context_ok := False\<rparr>"
  using assms by (auto simp: end_of_stream_def tick_def Let_def split: prod.splits option.splits)

lemma tick_pair:
  assumes "fst (read (capL s)) = Some fL" and "fst (read (capR s)) = Some fR"
  shows "tick s now = s\<lparr>capL := snd (read (capL s)), capR := snd (read (capR s)),
            pub_left := pub_left s @ [\<lparr>stamp = now, frame_id = ''left_camera'', encoding = ''bgr8'', data = fL\<rparr>],
            pub_right := pub_right s @ [\<lparr>stamp = now, frame_id = ''right_camera'', encoding = ''bgr8'', data = fR\<rparr>],
            logger := (if frame_idx s mod 30 = 0 then logger s @ [PublishedFrame (frame_idx s)] else logger s),
            frame_idx := frame_idx s + 1\<rparr>"
  using assms by (auto simp: tick_def Let_def cv2_to_imgmsg_def split: prod.splits option.splits)

lemma not_eos_cases:
  "\<not> end_of_stream s \<Longrightarrow> \<exists>fL fR. fst (read (capL s)) = Some fL \<and> fst (read (capR s)) = Some fR"
  by (auto simp: end_of_stream_def)

lemma tick_eos_persists: "end_of_stream s \<Longrightarrow> end_of_stream (tick s now)"
  by (auto simp: tick_eos end_of_stream_def read_fail_keeps)

lemma tick_stays_stopped: "\<not> context_ok s \<Longrightarrow> \<not> context_ok (tick s now)"
proof (cases "end_of_stream s")
  case True
  then show ?thesis by (simp add: tick_eos)
next
  case False
  assume "\<not> context_ok s"
  moreover from False obtain fL fR where "fst (read (capL s)) = Some fL" "fst (read (capR s)) = Some fR"
    using not_eos_cases by blast
  ultimately show ?thesis by (simp add: tick_pair)
qed

lemma spin_stopped: "\<not> context_ok s \<Longrightarrow> spin s ts = s"
  by (cases ts) simp_all

lemma spin_append: "spin s (ts @ us) = spin (spin s ts) us"
  by (induction ts arbitrary: s) (auto simp: spin_stopped)

lemma foldl_tick_eos:
  "end_of_stream s \<Longrightarrow>
     pub_left (foldl tick s ts) = pub_left s \<and> pub_right (foldl tick s ts) = pub_right s \<and>
     frame_idx (foldl tick s ts) = frame_idx s \<and> end_of_stream (foldl tick s ts)"
proof (induction ts arbitrary: s)
  case Nil
  then show ?case by simp
next
  case (Cons t ts)
  from Cons.prems have e: "end_of_stream (tick s t)" by (rule tick_eos_persists)
  from Cons.IH [OF e] Cons.prems show ?case by (simp add: tick_eos)
qed

lemma foldl_tick_stopped: "\<not> context_ok s \<Longrightarrow> \<not> context_ok (foldl tick s ts)"
  by (induction ts arbitrary: s) (auto simp: tick_stays_stopped)

lemma tick_frame_idx:
  "frame_idx (tick s now) = (if end_of_stream s then frame_idx s else frame_idx s + 1)"
proof (cases "end_of_stream s")
  case True
  then show ?thesis by (simp add: tick_eos)
next
  case False
  then obtain fL fR where "fst (read (capL s)) = Some fL" "fst (read (capR s)) = Some fR"
    using not_eos_cases by blast
  with False show ?thesis by (simp add: tick_pair)
qed

lemma tick_pub_lengths:
  "length (pub_left (tick s now)) = (if end_of_stream s then length (pub_left s) else Suc (length (pub_left s))) \<and>
   length (pub_right (tick s now)) = (if end_of_stream s then length (pub_right s) else Suc (length (pub_right s)))"
proof (cases "end_of_stream s")
  case True
  then show ?thesis by (simp add: tick_eos)
next
  case False
  then obtain fL fR where "fst (read (capL s)) = Some fL" "fst (read (capR s)) = Some fR"
    using not_eos_cases by blast
  with False show ?thesis by (simp add: tick_pair)
qed

lemma tick_start_frame: "start_frame (tick s now) = start_frame s"
proof (cases "end_of_stream s")
  case True
  then show ?thesis by (simp add: tick_eos)
next
  case False
  then obtain fL fR where "fst (read (capL s)) = Some fL" "fst (read (capR s)) = Some fR"
    using not_eos_cases by blast
  then show ?thesis by (simp add: tick_pair)
qed

lemma tick_paired: "paired s \<Longrightarrow> paired (tick s now)"
  by (simp add: paired_def tick_frame_idx tick_pub_lengths tick_start_frame)

lemma spin_paired: "paired s \<Longrightarrow> paired (spin s ts)"
  by (induction ts arbitrary: s) (auto simp: tick_paired)

lemma spin_start_frame: "start_frame (spin s ts) = start_frame s"
  by (induction ts arbitrary: s) (auto simp: tick_start_frame)

lemma spin_frame_idx_le: "frame_idx s \<le> frame_idx (spin s ts)"
proof (induction ts arbitrary: s)
  case Nil
  then show ?case by simp
next
  case (Cons t ts)
  have "frame_idx s \<le> frame_idx (tick s t)" by (simp add: tick_frame_idx)
  also have "\<dots> \<le> frame_idx (spin (tick s t) ts)" by (rule Cons.IH)
  finally show ?case by simp
qed

lemma spin_counts:
  "frame_idx (spin s ts) - frame_idx s = int (length (pub_left (spin s ts))) - int (length (pub_left s)) \<and>
   frame_idx (spin s ts) - frame_idx s = int (length (pub_right (spin s ts))) - int (length (pub_right s))"
proof (induction ts arbitrary: s)
  case Nil
  then show ?case by simp
next
  case (Cons t ts)
  show ?case
  proof (cases "context_ok s")
    case True
    with Cons.IH [of "tick s t"] show ?thesis
      by (simp add: tick_frame_idx tick_pub_lengths split: if_splits)
  next
    case False
    then show ?thesis by simp
  qed
qed

lemma spin_stop_logged_once:
  "context_ok s \<Longrightarrow>
     count_list (logger (spin s ts)) EndOfVideo =
       count_list (logger s) EndOfVideo + (if context_ok (spin s ts) then 0 else 1)"
proof (induction ts arbitrary: s)
  case Nil
  then show ?case by simp
next
  case (Cons t ts)
  show ?case
  proof (cases "end_of_stream s")
    case True
    then have "\<not> context_ok (tick s t)" by (simp add: tick_eos)
    then have "spin (tick s t) ts = tick s t" by (rule spin_stopped)
    with Cons.prems True show ?thesis by (simp add: tick_eos)
  next
    case False
    then obtain fL fR where r: "fst (read (capL s)) = Some fL" "fst (read (capR s)) = Some fR"
      using not_eos_cases by blast
    with Cons.prems have ok: "context_ok (tick s t)" by (simp add: tick_pair)
    have "count_list (logger (tick s t)) EndOfVideo = count_list (logger s) EndOfVideo"
      using r by (simp add: tick_pair)
    with Cons.IH [OF ok] Cons.prems show ?thesis by simp
  qed
qed

subsection \<open>The two sample states\<close>

lemma mid_run_reads:
  "paired mid_run" "fst (read (capL mid_run)) = Some 11" "fst (read (capR mid_run)) = Some 21"
  "\<not> end_of_stream mid_run" "context_ok mid_run"
  by (simp_all add: mid_run_def node_at_def paired_def read_def end_of_stream_def)

lemma left_used_up_reads:
  "paired left_used_up" "fst (read (capL left_used_up)) = None"
  "fst (read (capR left_used_up)) = Some 22"
  "end_of_stream left_used_up" "context_ok left_used_up"
  by (simp_all add: left_used_up_def node_at_def paired_def read_def end_of_stream_def)

subsection \<open>Construction\<close>

lemma compute_dt_value:
  "compute_dt rate =
     Inr (case rate of
            Finite r \<Rightarrow> Finite (1 / max r (1 / 10))
          | PosInf \<Rightarrow> Finite 0
          | NegInf \<Rightarrow> Finite 10
          | NaN \<Rightarrow> NaN)"
  by (cases rate) (simp_all add: compute_dt_def py_max_def max_def)

lemma compute_dt_returns: "\<exists>d. compute_dt rate = Inr d"
  by (simp add: compute_dt_value)

lemma init_ok:
  assumes "p_left_video ps \<noteq> []" and "p_right_video ps \<noteq> []"
    and "files (expanduser (p_left_video ps)) = Some fl"
    and "files (expanduser (p_right_video ps)) = Some fr"
    and "compute_dt (p_rate_hz ps) = Inr d"
  shows "StereoVideoPublisher_init ps expanduser files =
           Inr \<lparr>rate_hz = p_rate_hz ps, start_frame = p_start_frame ps,
                left_path = expanduser (p_left_video ps),
                right_path = expanduser (p_right_video ps),
                pub_left = [], pub_right = [],
                capL = \<lparr>opened = True, frames = fl,
                        pos = (if p_start_frame ps > 0 then nat (p_start_frame ps) else 0)\<rparr>,
                capR = \<lparr>opened = True, frames = fr,
                        pos = (if p_start_frame ps > 0 then nat (p_start_frame ps) else 0)\<rparr>,
                dt = d, frame_idx = p_start_frame ps,
                logger = [Started, LeftPath (expanduser (p_left_video ps)),
                          RightPath (expanduser (p_right_video ps)),
                          PublishingAt (p_rate_hz ps) (p_start_frame ps)],
                context_ok = True\<rparr>"
  using assms
  by (simp add: StereoVideoPublisher_init_def Let_def VideoCapture_open_def isOpened_def
      set_pos_frames_def)

lemma stopped_after_left_used_up:
  "tick left_used_up 7 =
     (node_at \<lparr>opened = True, frames = [10, 11], pos = 2\<rparr>
              \<lparr>opened = True, frames = [20, 21, 22, 23], pos = 3\<rparr>
              0 [left_msg 5 10, left_msg 6 11] [right_msg 5 20, right_msg 6 21] False)
     \<lparr>logger := [EndOfVideo]\<rparr>"
  using left_used_up_reads(4)
  by (simp add: tick_eos) (simp add: left_used_up_def node_at_def read_def)

lemma two_files_paths:
  "p_left_video (stereo_parameters rate start) \<noteq> []"
  "p_right_video (stereo_parameters rate start) \<noteq> []"
  "two_files l r (p_left_video (stereo_parameters rate start)) = Some l"
  "two_files l r (p_right_video (stereo_parameters rate start)) = Some r"
  "p_start_frame (stereo_parameters rate start) = start"
  "p_rate_hz (stereo_parameters rate start) = rate"
  by (simp_all add: stereo_parameters_def two_files_def)

lemma config_message_names_parameters:
  "sublist ''left_video'' ''You must pass left_video and right_video parameters.''"
  "sublist ''right_video'' ''You must pass left_video and right_video parameters.''"
  by code_simp+

lemma mid_run_from_7_reads:
  "fst (read (capL mid_run_from_7)) = Some 11" "fst (read (capR mid_run_from_7)) = Some 21"
  "frame_idx mid_run_from_7 = 8" "start_frame mid_run_from_7 = 7"
  by (simp_all add: mid_run_from_7_def node_at_def read_def)

lemma tick_pub_prefix:
  "prefix (pub_left s) (pub_left (tick s now)) \<and> prefix (pub_right s) (pub_right (tick s now))"
proof (cases "end_of_stream s")
  case True
  then show ?thesis by (simp add: tick_eos)
next
  case False
  then obtain fL fR where "fst (read (capL s)) = Some fL" "fst (read (capR s)) = Some fR"
    using not_eos_cases by blast
  then show ?thesis by (simp add: tick_pair)
qed

lemma spin_pub_prefix:
  "prefix (pub_left s) (pub_left (spin s ts)) \<and> prefix (pub_right s) (pub_right (spin s ts))"
proof (induction ts arbitrary: s)
  case Nil
  then show ?case by simp
next
  case (Cons t ts)
  show ?case
  proof (cases "context_ok s")
    case True
    from tick_pub_prefix [of s t] Cons.IH [of "tick s t"]
    have "prefix (pub_left s) (pub_left (spin (tick s t) ts))"
      "prefix (pub_right s) (pub_right (spin (tick s t) ts))"
      by (blast intro: prefix_order.trans)+
    with True show ?thesis by simp
  next
    case False
    then show ?thesis by simp
  qed
qed

lemma spin_eos:
  assumes "end_of_stream s"
  shows "pub_left (spin s ts) = pub_left s \<and> pub_right (spin s ts) = pub_right s"
proof (cases ts)
  case Nil
  then show ?thesis by simp
next
  case (Cons t us)
  have "\<not> context_ok (tick s t)" using assms by (simp add: tick_eos)
  then have "spin (tick s t) us = tick s t" by (rule spin_stopped)
  with Cons assms show ?thesis by (simp add: tick_eos)
qed

section \<open>The claims\<close>

text \<open>
  C1, as stated, fails on the index: a published message holds a stamp, a label, an
  encoding and a frame, and no sequence index. The pair published while \<open>frame_idx\<close> is
  1 and the pair published while it is 8 are the same messages.
\<close>

theorem published_messages_carry_no_index:
  "frame_idx mid_run = 1 \<and> frame_idx mid_run_from_7 = 8 \<and>
   pub_left (tick mid_run 6) =
     [left_msg 5 10,
      \<lparr>stamp = 6, frame_id = ''left_camera'', encoding = ''bgr8'', data = 11\<rparr>] \<and>
   pub_right (tick mid_run 6) =
     [right_msg 5 20,
      \<lparr>stamp = 6, frame_id = ''right_camera'', encoding = ''bgr8'', data = 21\<rparr>] \<and>
   pub_left (tick mid_run_from_7 6) = pub_left (tick mid_run 6) \<and>
   pub_right (tick mid_run_from_7 6) = pub_right (tick mid_run 6)"
proof -
  have a: "frame_idx mid_run = 1" "pub_left mid_run = [left_msg 5 10]"
    "pub_right mid_run = [right_msg 5 20]"
    by (simp_all add: mid_run_def node_at_def)
  have b: "pub_left mid_run_from_7 = [left_msg 5 10]" "pub_right mid_run_from_7 = [right_msg 5 20]"
    by (simp_all add: mid_run_from_7_def node_at_def)
  show ?thesis
    using a b mid_run_from_7_reads(3)
    by (simp add: tick_pair [OF mid_run_reads(2,3)] tick_pair [OF mid_run_from_7_reads(1,2)])
qed

text \<open>
  C1, amended. In every tick in which both reads return a frame, exactly one message
  goes out on each topic: the left one holds the clock reading of the tick, the label
  \<^verbatim>\<open>left_camera\<close>, the encoding and the left frame, the right one the same clock
  reading, the label \<^verbatim>\<open>right_camera\<close>, the encoding and the right frame. The two
  messages do not depend on \<open>frame_idx\<close>. The index of the pair is the counter of the
  node alone: the tick logs the value the counter had on entry (when it is a multiple
  of 30) and raises it by exactly one.
\<close>

theorem tick_pair_same_stamp_distinct_labels:
  assumes "fst (read (capL s)) = Some fL"
    and "fst (read (capR s)) = Some fR"
  shows "pub_left (tick s now) =
           pub_left s @
             [\<lparr>stamp = now, frame_id = ''left_camera'', encoding = ''bgr8'', data = fL\<rparr>] \<and>
         pub_right (tick s now) =
           pub_right s @
             [\<lparr>stamp = now, frame_id = ''right_camera'', encoding = ''bgr8'', data = fR\<rparr>] \<and>
         ''left_camera'' \<noteq> ''right_camera'' \<and>
         pub_left (tick (s\<lparr>frame_idx := i\<rparr>) now) = pub_left (tick s now) \<and>
         pub_right (tick (s\<lparr>frame_idx := i\<rparr>) now) = pub_right (tick s now) \<and>
         frame_idx (tick s now) = frame_idx s + 1 \<and>
         logger (tick s now) =
           logger s @ (if frame_idx s mod 30 = 0 then [PublishedFrame (frame_idx s)] else [])"
proof -
  have "fst (read (capL (s\<lparr>frame_idx := i\<rparr>))) = Some fL"
    "fst (read (capR (s\<lparr>frame_idx := i\<rparr>))) = Some fR"
    using assms by simp_all
  then have "pub_left (tick (s\<lparr>frame_idx := i\<rparr>) now) = pub_left (tick s now) \<and>
      pub_right (tick (s\<lparr>frame_idx := i\<rparr>) now) = pub_right (tick s now)"
    using assms by (simp add: tick_pair)
  then show ?thesis using assms by (simp add: tick_pair)
qed

theorem tick_pair_same_stamp_distinct_labels_witness:
  "fst (read (capL mid_run)) = Some 11 \<and> fst (read (capR mid_run)) = Some 21 \<and>
   pub_left (tick mid_run 6) =
     pub_left mid_run @
       [\<lparr>stamp = 6, frame_id = ''left_camera'', encoding = ''bgr8'', data = 11\<rparr>] \<and>
   pub_right (tick mid_run 6) =
     pub_right mid_run @
       [\<lparr>stamp = 6, frame_id = ''right_camera'', encoding = ''bgr8'', data = 21\<rparr>] \<and>
   pub_left (tick (mid_run\<lparr>frame_idx := 30\<rparr>) 6) = pub_left (tick mid_run 6) \<and>
   frame_idx mid_run = 1 \<and> frame_idx (tick mid_run 6) = 2 \<and>
   logger (tick mid_run 6) = logger mid_run"
proof -
  have i: "frame_idx mid_run = 1" by (simp add: mid_run_def node_at_def)
  from tick_pair_same_stamp_distinct_labels [OF mid_run_reads(2,3), where now = 6 and i = 30] i
  show ?thesis using mid_run_reads(2,3) by simp
qed

text \<open>
  C2. In a tick in which the left or the right read returns no frame, nothing is
  published on either topic, the counter stays, the stop line is logged and the context
  is shut down. The stop is final: \<open>spin\<close> runs no further callback, and no later call
  of \<open>tick\<close> makes the context ok again.
\<close>

theorem tick_end_of_stream_publishes_nothing:
  assumes "end_of_stream s"
  shows "pub_left (tick s now) = pub_left s \<and> pub_right (tick s now) = pub_right s \<and>
         frame_idx (tick s now) = frame_idx s \<and>
         logger (tick s now) = logger s @ [EndOfVideo] \<and>
         \<not> context_ok (tick s now) \<and>
         spin (tick s now) ts = tick s now \<and>
         \<not> context_ok (foldl tick (tick s now) ts)"
proof -
  have stopped: "\<not> context_ok (tick s now)" using assms by (simp add: tick_eos)
  then have "spin (tick s now) ts = tick s now" by (rule spin_stopped)
  moreover have "\<not> context_ok (foldl tick (tick s now) ts)"
    using stopped by (rule foldl_tick_stopped)
  ultimately show ?thesis using assms by (simp add: tick_eos)
qed

theorem tick_end_of_stream_publishes_nothing_witness:
  "end_of_stream left_used_up \<and>
   pub_left (tick left_used_up 7) = [left_msg 5 10, left_msg 6 11] \<and>
   pub_right (tick left_used_up 7) = [right_msg 5 20, right_msg 6 21] \<and>
   \<not> context_ok (tick left_used_up 7) \<and>
   spin (tick left_used_up 7) [8, 9] = tick left_used_up 7"
proof -
  have "pub_left left_used_up = [left_msg 5 10, left_msg 6 11]"
    "pub_right left_used_up = [right_msg 5 20, right_msg 6 21]"
    by (simp_all add: left_used_up_def node_at_def)
  with tick_end_of_stream_publishes_nothing [OF left_used_up_reads(4), of 7 "[8, 9]"]
  show ?thesis using left_used_up_reads(4) by simp
qed

text \<open>
  C3. When both paths are given and both files open, the constructor returns a node
  (no exception) in a context that is ok, with nothing published yet, \<open>frame_idx\<close> equal
  to the configured start frame and both handles at the position of the seek. If both
  handles have a frame there, the first callback that \<open>spin\<close> runs publishes the first
  pair: it goes out while the counter is the start frame (the progress line, when one is
  due, says so), the counter is the start frame plus one afterwards, and in every run
  the two topics begin with that pair. If a handle has no frame there, no run publishes
  anything. Along every run the counter is the start frame plus the number of pairs
  published so far.
\<close>

theorem init_enters_running_at_start_frame:
  assumes "p_left_video ps \<noteq> []" and "p_right_video ps \<noteq> []"
    and "files (expanduser (p_left_video ps)) = Some fl"
    and "files (expanduser (p_right_video ps)) = Some fr"
  shows "\<exists>node. StereoVideoPublisher_init ps expanduser files = Inr node \<and>
           context_ok node \<and> pub_left node = [] \<and> pub_right node = [] \<and>
           frame_idx node = p_start_frame ps \<and>
           capL node = \<lparr>opened = True, frames = fl,
                         pos = (if p_start_frame ps > 0 then nat (p_start_frame ps) else 0)\<rparr> \<and>
           capR node = \<lparr>opened = True, frames = fr,
                         pos = (if p_start_frame ps > 0 then nat (p_start_frame ps) else 0)\<rparr> \<and>
           (\<forall>fL fR now ts.
              fst (read (capL node)) = Some fL \<and> fst (read (capR node)) = Some fR \<longrightarrow>
                spin node (now # ts) = spin (tick node now) ts \<and>
                pub_left (tick node now) = [left_msg now fL] \<and>
                pub_right (tick node now) = [right_msg now fR] \<and>
                frame_idx (tick node now) = p_start_frame ps + 1 \<and>
                logger (tick node now) =
                  logger node @ (if p_start_frame ps mod 30 = 0
                                 then [PublishedFrame (p_start_frame ps)] else []) \<and>
                (\<exists>ls rs. pub_left (spin node (now # ts)) = left_msg now fL # ls \<and>
                         pub_right (spin node (now # ts)) = right_msg now fR # rs)) \<and>
           (end_of_stream node \<longrightarrow>
              (\<forall>ts. pub_left (spin node ts) = [] \<and> pub_right (spin node ts) = [])) \<and>
           (\<forall>ts. length (pub_left (spin node ts)) = length (pub_right (spin node ts)) \<and>
                 frame_idx (spin node ts) =
                   p_start_frame ps + int (length (pub_left (spin node ts)))) \<and>
           (\<forall>ts. pub_left (spin node ts) = [] \<longrightarrow> frame_idx (spin node ts) = p_start_frame ps)"
proof -
  obtain d where d: "compute_dt (p_rate_hz ps) = Inr d"
    using compute_dt_returns by blast
  from init_ok [where ps = ps and files = files and expanduser = expanduser] assms d
  obtain node where
    n: "StereoVideoPublisher_init ps expanduser files = Inr node"
      "context_ok node" "pub_left node = []" "pub_right node = []"
      "frame_idx node = p_start_frame ps" "start_frame node = p_start_frame ps"
      "capL node = \<lparr>opened = True, frames = fl,
                         pos = (if p_start_frame ps > 0 then nat (p_start_frame ps) else 0)\<rparr>"
      "capR node = \<lparr>opened = True, frames = fr,
                         pos = (if p_start_frame ps > 0 then nat (p_start_frame ps) else 0)\<rparr>"
    by simp
  then have "paired node" by (simp add: paired_def)
  then have "paired (spin node ts)" for ts by (rule spin_paired)
  then have inv: "length (pub_left (spin node ts)) = length (pub_right (spin node ts)) \<and>
      frame_idx (spin node ts) = p_start_frame ps + int (length (pub_left (spin node ts)))" for ts
    using n(6) by (simp add: paired_def spin_start_frame)
  have first: "spin node (now # ts) = spin (tick node now) ts \<and>
                pub_left (tick node now) = [left_msg now fL] \<and>
                pub_right (tick node now) = [right_msg now fR] \<and>
                frame_idx (tick node now) = p_start_frame ps + 1 \<and>
                logger (tick node now) =
                  logger node @ (if p_start_frame ps mod 30 = 0
                                 then [PublishedFrame (p_start_frame ps)] else []) \<and>
                (\<exists>ls rs. pub_left (spin node (now # ts)) = left_msg now fL # ls \<and>
                         pub_right (spin node (now # ts)) = right_msg now fR # rs)"
    if r: "fst (read (capL node)) = Some fL \<and> fst (read (capR node)) = Some fR"
    for fL fR now ts
  proof -
    from r have rl: "fst (read (capL node)) = Some fL" and rr: "fst (read (capR node)) = Some fR"
      by simp_all
    have sp: "spin node (now # ts) = spin (tick node now) ts" using n(2) by simp
    have t: "pub_left (tick node now) = [left_msg now fL]"
      "pub_right (tick node now) = [right_msg now fR]"
      "frame_idx (tick node now) = p_start_frame ps + 1"
      "logger (tick node now) =
        logger node @ (if p_start_frame ps mod 30 = 0
                       then [PublishedFrame (p_start_frame ps)] else [])"
      using n(3-5) by (simp_all add: tick_pair [OF rl rr] left_msg_def right_msg_def)
    from spin_pub_prefix [of "tick node now" ts] t(1,2)
    have "\<exists>ls rs. pub_left (spin (tick node now) ts) = left_msg now fL # ls \<and>
        pub_right (spin (tick node now) ts) = right_msg now fR # rs"
      by (auto simp: prefix_def)
    with sp t show ?thesis by simp
  qed
  have none: "\<forall>ts. pub_left (spin node ts) = [] \<and> pub_right (spin node ts) = []"
    if "end_of_stream node"
    using spin_eos [OF that] n(3,4) by simp
  show ?thesis
    using n(1-5,7,8) first none inv by (intro exI [of _ node]) simp
qed

theorem init_enters_running_at_start_frame_witness:
  "p_left_video (stereo_parameters (Finite 10) 3) \<noteq> [] \<and>
   p_right_video (stereo_parameters (Finite 10) 3) \<noteq> [] \<and>
   two_files [10, 11, 12, 13, 14] [20, 21, 22, 23, 24]
     (p_left_video (stereo_parameters (Finite 10) 3)) = Some [10, 11, 12, 13, 14] \<and>
   two_files [10, 11, 12, 13, 14] [20, 21, 22, 23, 24]
     (p_right_video (stereo_parameters (Finite 10) 3)) = Some [20, 21, 22, 23, 24] \<and>
   (\<exists>node. StereoVideoPublisher_init (stereo_parameters (Finite 10) 3) (\<lambda>p. p)
             (two_files [10, 11, 12, 13, 14] [20, 21, 22, 23, 24]) = Inr node \<and>
           context_ok node \<and> frame_idx node = 3 \<and>
           fst (read (capL node)) = Some 13 \<and> fst (read (capR node)) = Some 23 \<and>
           pub_left (spin node [100]) = [left_msg 100 13] \<and>
           pub_right (spin node [100]) = [right_msg 100 23] \<and>
           frame_idx (spin node [100]) = 4)"
proof -
  let ?ps = "stereo_parameters (Finite 10) 3"
  let ?files = "two_files [10, 11, 12, 13, 14] [20, 21, 22, 23, 24]"
  have h: "p_left_video ?ps \<noteq> []" "p_right_video ?ps \<noteq> []"
    "?files (p_left_video ?ps) = Some [10, 11, 12, 13, 14]"
    "?files (p_right_video ?ps) = Some [20, 21, 22, 23, 24]"
    by (simp_all add: stereo_parameters_def two_files_def)
  have s: "p_start_frame ?ps = 3" by (simp add: stereo_parameters_def)
  from init_enters_running_at_start_frame
    [where ps = ?ps and expanduser = "\<lambda>p. p" and files = ?files, OF h]
  obtain node where n: "StereoVideoPublisher_init ?ps (\<lambda>p. p) ?files = Inr node"
    "context_ok node" "frame_idx node = p_start_frame ?ps"
    "capL node = \<lparr>opened = True, frames = [10, 11, 12, 13, 14],
                  pos = (if p_start_frame ?ps > 0 then nat (p_start_frame ?ps) else 0)\<rparr>"
    "capR node = \<lparr>opened = True, frames = [20, 21, 22, 23, 24],
                  pos = (if p_start_frame ?ps > 0 then nat (p_start_frame ?ps) else 0)\<rparr>"
    and f: "\<And>fL fR now ts.
       fst (read (capL node)) = Some fL \<and> fst (read (capR node)) = Some fR \<Longrightarrow>
         spin node (now # ts) = spin (tick node now) ts \<and>
         pub_left (tick node now) = [left_msg now fL] \<and>
         pub_right (tick node now) = [right_msg now fR] \<and>
         frame_idx (tick node now) = p_start_frame ?ps + 1"
    by blast
  have r: "fst (read (capL node)) = Some 13 \<and> fst (read (capR node)) = Some 23"
    by (simp add: n(4,5) s read_def)
  from f [OF r, of 100 "[]"] have
    "pub_left (spin node [100]) = [left_msg 100 13] \<and>
     pub_right (spin node [100]) = [right_msg 100 23] \<and>
     frame_idx (spin node [100]) = 4"
    by (simp add: s)
  with n(1-3) r s h show ?thesis by (intro conjI exI [of _ node]) simp_all
qed

text \<open>
  C4. A tick that publishes a pair (both reads return a frame) raises \<open>frame_idx\<close> by
  exactly one and adds exactly one message to each topic; a tick at the end of a stream
  leaves the counter and the topics as they are. So the counter never goes down: not in
  a tick, and not between any two points of a run of \<open>spin\<close>, where its growth is the
  number of pairs published. Python's integers do not wrap around.
\<close>

theorem frame_idx_steps_by_one_and_never_decreases:
  "frame_idx (tick s now) = (if end_of_stream s then frame_idx s else frame_idx s + 1) \<and>
   length (pub_left (tick s now)) =
     (if end_of_stream s then length (pub_left s) else Suc (length (pub_left s))) \<and>
   length (pub_right (tick s now)) =
     (if end_of_stream s then length (pub_right s) else Suc (length (pub_right s))) \<and>
   frame_idx s \<le> frame_idx (tick s now) \<and>
   frame_idx (spin s ts) \<le> frame_idx (spin s (ts @ us)) \<and>
   frame_idx (spin s ts) - frame_idx s =
     int (length (pub_left (spin s ts))) - int (length (pub_left s))"
proof -
  have "frame_idx (spin s ts) \<le> frame_idx (spin (spin s ts) us)"
    by (rule spin_frame_idx_le)
  then have "frame_idx (spin s ts) \<le> frame_idx (spin s (ts @ us))"
    by (simp add: spin_append)
  then show ?thesis
    using spin_counts [of s ts] by (simp add: tick_frame_idx tick_pub_lengths)
qed

theorem frame_idx_steps_by_one_and_never_decreases_witness:
  "frame_idx mid_run = 1 \<and> frame_idx (tick mid_run 6) = 2 \<and>
   frame_idx (tick (tick mid_run 6) 7) = 2 \<and>
   frame_idx (spin mid_run [6]) \<le> frame_idx (spin mid_run [6, 7, 8])"
proof -
  have a: "frame_idx mid_run = 1" by (simp add: mid_run_def node_at_def)
  have b: "end_of_stream (tick mid_run 6)"
    using mid_run_reads(2,3)
    by (simp add: tick_pair end_of_stream_def) (simp add: mid_run_def node_at_def read_def)
  from frame_idx_steps_by_one_and_never_decreases [of mid_run 6 "[6]" "[7, 8]"]
    frame_idx_steps_by_one_and_never_decreases [of "tick mid_run 6" 7 "[]" "[]"]
    a b mid_run_reads(4)
  show ?thesis by simp
qed

text \<open>
  C6, as stated, fails for a rate that is NaN: \<^verbatim>\<open>max(nan, 0.1)\<close> is NaN, so the period
  is NaN, and NaN is not at most 10.
\<close>

theorem period_of_nan_rate_is_nan:
  "py_max NaN (Finite (1 / 10)) = NaN \<and> compute_dt NaN = Inr NaN \<and> \<not> py_le NaN (Finite 10)"
  by (simp add: compute_dt_def py_max_def)

text \<open>
  C6, amended. For every rate the period is \<^verbatim>\<open>1.0 / max(rate_hz, 0.1)\<close>, and computing
  it never divides by zero: the divisor is not zero and the division returns. For every
  rate other than NaN, zero, negative and infinite ones included, the period is at most
  10: a finite rate \<open>r\<close> gives \<open>1 / max r 0.1\<close>, which is positive and at most 10 and is
  exactly 10 when \<open>r\<close> is at most 0.1; minus infinity gives 10 and plus infinity gives 0.
  The rate NaN gives the period NaN.
\<close>

theorem dt_is_clamped:
  "(\<exists>d. compute_dt rate = Inr d \<and>
        (rate \<noteq> NaN \<longrightarrow> py_le d (Finite 10)) \<and> (rate = NaN \<longrightarrow> d = NaN)) \<and>
   compute_dt rate = py_div (Finite 1) (py_max rate (Finite (1 / 10))) \<and>
   py_max rate (Finite (1 / 10)) \<noteq> Finite 0 \<and>
   compute_dt (Finite r) = Inr (Finite (1 / max r (1 / 10))) \<and>
   0 < 1 / max r (1 / 10) \<and> 1 / max r (1 / 10) \<le> 10 \<and>
   (r \<le> 1 / 10 \<longrightarrow> compute_dt (Finite r) = Inr (Finite 10)) \<and>
   compute_dt NegInf = Inr (Finite 10) \<and> compute_dt PosInf = Inr (Finite 0)"
proof -
  have bound: "0 < 1 / max x (1 / 10) \<and> 1 / max x (1 / 10) \<le> 10" for x :: real
  proof -
    have m: "1 / 10 \<le> max x (1 / 10)" by simp
    then have p: "0 < max x (1 / 10)" by linarith
    have "1 / max x (1 / 10) \<le> 1 / (1 / 10)"
      using m by (intro divide_left_mono) simp_all
    with p show ?thesis by simp
  qed
  have le: "rate \<noteq> NaN \<longrightarrow>
      py_le (case rate of Finite x \<Rightarrow> Finite (1 / max x (1 / 10)) | PosInf \<Rightarrow> Finite 0
             | NegInf \<Rightarrow> Finite 10 | NaN \<Rightarrow> NaN) (Finite 10)"
    using bound by (cases rate) simp_all
  have nz: "py_max rate (Finite (1 / 10)) \<noteq> Finite 0"
    by (cases rate) (auto simp: py_max_def)
  have small: "r \<le> 1 / 10 \<longrightarrow> compute_dt (Finite r) = Inr (Finite 10)"
    by (simp add: compute_dt_value max_def)
  have "compute_dt rate = py_div (Finite 1) (py_max rate (Finite (1 / 10)))"
    by (simp add: compute_dt_def)
  moreover have "compute_dt (Finite r) = Inr (Finite (1 / max r (1 / 10)))"
    "compute_dt NegInf = Inr (Finite 10)" "compute_dt PosInf = Inr (Finite 0)"
    by (simp_all add: compute_dt_value)
  moreover have "\<exists>d. compute_dt rate = Inr d \<and>
        (rate \<noteq> NaN \<longrightarrow> py_le d (Finite 10)) \<and> (rate = NaN \<longrightarrow> d = NaN)"
    using le by (auto simp: compute_dt_value)
  ultimately show ?thesis using nz small bound [of r] by blast
qed

theorem dt_is_clamped_witness:
  "compute_dt (Finite 0) = Inr (Finite 10) \<and> compute_dt (Finite (- 5)) = Inr (Finite 10) \<and>
   compute_dt (Finite 10) = Inr (Finite (1 / 10)) \<and>
   (\<exists>d. compute_dt PosInf = Inr d \<and> py_le d (Finite 10)) \<and>
   (\<exists>d. compute_dt NaN = Inr d \<and> d = NaN)"
proof -
  have a: "compute_dt (Finite 0) = Inr (Finite 10)"
    "compute_dt (Finite (- 5)) = Inr (Finite 10)"
    "compute_dt (Finite 10) = Inr (Finite (1 / 10))"
    using dt_is_clamped [of NaN 0] dt_is_clamped [of NaN "- 5"] dt_is_clamped [of NaN 10]
    by simp_all
  have b: "\<exists>d. compute_dt PosInf = Inr d \<and> py_le d (Finite 10)"
    using dt_is_clamped [of PosInf 0] by blast
  have c: "\<exists>d. compute_dt NaN = Inr d \<and> d = NaN"
    using dt_is_clamped [of NaN 0] by blast
  from a b c show ?thesis by blast
qed

text \<open>
  C5, as stated, fails on a call of \<open>tick\<close> that arrives after the stop: \<open>tick\<close> has no
  test of the stopped state. With the left file used up and the context shut down, the
  next call still reads the right source (frame 23, position 3 to 4) and logs the stop
  line a second time, so it is not a no-op.
\<close>

theorem late_tick_reads_right_source:
  "\<not> context_ok (tick left_used_up 7) \<and>
   pos (capR (tick left_used_up 7)) = 3 \<and>
   fst (read (capR (tick left_used_up 7))) = Some 23 \<and>
   pos (capR (tick (tick left_used_up 7) 8)) = 4 \<and>
   logger (tick (tick left_used_up 7) 8) = [EndOfVideo, EndOfVideo] \<and>
   tick (tick left_used_up 7) 8 \<noteq> tick left_used_up 7"
proof -
  let ?s = "tick left_used_up 7"
  have e: "end_of_stream ?s"
    using left_used_up_reads(4) by (rule tick_eos_persists)
  have a: "\<not> context_ok ?s" "pos (capR ?s) = 3" "fst (read (capR ?s)) = Some 23"
    by (simp_all add: stopped_after_left_used_up node_at_def read_def)
  have b: "pos (capR (tick ?s 8)) = 4" "logger (tick ?s 8) = [EndOfVideo, EndOfVideo]"
    using e by (simp_all add: tick_eos) (simp_all add: stopped_after_left_used_up node_at_def read_def)
  from a(2) b(1) have "tick ?s 8 \<noteq> ?s" by auto
  with a b show ?thesis by simp
qed

text \<open>
  C5, amended. Once a read has reported the end of a stream, no call of \<open>tick\<close>
  publishes anything, in that tick or in any number of later ones, and the context
  stays shut down. Under \<open>spin\<close> no tick runs after the stop, and a run that starts in a
  context that is ok logs the stop line once if it stops and never otherwise. A call of
  \<open>tick\<close> after the stop still performs both reads.
\<close>

theorem no_publish_after_end_of_stream:
  assumes "end_of_stream s" and "context_ok r"
  shows "pub_left (foldl tick s ts) = pub_left s \<and>
         pub_right (foldl tick s ts) = pub_right s \<and>
         \<not> context_ok (foldl tick (tick s now) ts) \<and>
         spin (tick s now) ts = tick s now \<and>
         capL (tick (tick s now) t) = snd (read (capL (tick s now))) \<and>
         capR (tick (tick s now) t) = snd (read (capR (tick s now))) \<and>
         count_list (logger (spin r ts)) EndOfVideo =
           count_list (logger r) EndOfVideo + (if context_ok (spin r ts) then 0 else 1)"
proof -
  have stopped: "\<not> context_ok (tick s now)" using assms(1) by (simp add: tick_eos)
  have e: "end_of_stream (tick s now)" using assms(1) by (rule tick_eos_persists)
  have "capL (tick (tick s now) t) = snd (read (capL (tick s now)))"
    "capR (tick (tick s now) t) = snd (read (capR (tick s now)))"
    using e by (simp_all add: tick_eos)
  moreover have "spin (tick s now) ts = tick s now" using stopped by (rule spin_stopped)
  moreover have "\<not> context_ok (foldl tick (tick s now) ts)"
    using stopped by (rule foldl_tick_stopped)
  moreover note foldl_tick_eos [OF assms(1), of ts] spin_stop_logged_once [OF assms(2), of ts]
  ultimately show ?thesis by simp
qed

theorem no_publish_after_end_of_stream_witness:
  "end_of_stream left_used_up \<and> context_ok mid_run \<and>
   pub_left (foldl tick left_used_up [7, 8, 9]) = [left_msg 5 10, left_msg 6 11] \<and>
   pub_right (foldl tick left_used_up [7, 8, 9]) = [right_msg 5 20, right_msg 6 21] \<and>
   spin (tick left_used_up 7) [8, 9] = tick left_used_up 7 \<and>
   count_list (logger (spin mid_run [6, 7, 8])) EndOfVideo = 1"
proof -
  have p: "pub_left left_used_up = [left_msg 5 10, left_msg 6 11]"
    "pub_right left_used_up = [right_msg 5 20, right_msg 6 21]"
    "logger mid_run = []"
    by (simp_all add: left_used_up_def mid_run_def node_at_def)
  have e: "end_of_stream (tick mid_run 6)"
    using mid_run_reads(2,3)
    by (simp add: tick_pair end_of_stream_def) (simp add: mid_run_def node_at_def read_def)
  have "context_ok (tick mid_run 6)"
    using mid_run_reads(2,3,5) by (simp add: tick_pair)
  then have "\<not> context_ok (spin mid_run [6, 7, 8])"
    using mid_run_reads(5) e by (simp add: tick_eos)
  with no_publish_after_end_of_stream [OF left_used_up_reads(4) mid_run_reads(5), of "[7, 8, 9]" 7 8]
    no_publish_after_end_of_stream [OF left_used_up_reads(4) mid_run_reads(5), of "[8, 9]" 7 8]
    no_publish_after_end_of_stream [OF left_used_up_reads(4) mid_run_reads(5), of "[6, 7, 8]" 7 8]
    p left_used_up_reads(4) mid_run_reads(5)
  show ?thesis by simp
qed

text \<open>
  C10. Every tick reads both sources before it tests for the end of a stream: whatever
  the outcome, the handles after the tick are the handles after one read each. On the
  tick that stops the node because one source is used up, the frame read from the other
  source moves that source on by one and is published nowhere.
\<close>

theorem tick_reads_both_sources_first:
  "capL (tick s now) = snd (read (capL s)) \<and> capR (tick s now) = snd (read (capR s)) \<and>
   (fst (read (capL s)) = None \<and> fst (read (capR s)) = Some f \<longrightarrow>
      pos (capR (tick s now)) = Suc (pos (capR s)) \<and> f = frames (capR s) ! pos (capR s) \<and>
      pub_left (tick s now) = pub_left s \<and> pub_right (tick s now) = pub_right s \<and>
      \<not> context_ok (tick s now)) \<and>
   (fst (read (capR s)) = None \<and> fst (read (capL s)) = Some f \<longrightarrow>
      pos (capL (tick s now)) = Suc (pos (capL s)) \<and> f = frames (capL s) ! pos (capL s) \<and>
      pub_left (tick s now) = pub_left s \<and> pub_right (tick s now) = pub_right s \<and>
      \<not> context_ok (tick s now))"
proof -
  have caps: "capL (tick s now) = snd (read (capL s)) \<and> capR (tick s now) = snd (read (capR s))"
  proof (cases "end_of_stream s")
    case True
    then show ?thesis by (simp add: tick_eos)
  next
    case False
    then obtain fL fR where "fst (read (capL s)) = Some fL" "fst (read (capR s)) = Some fR"
      using not_eos_cases by blast
    then show ?thesis by (simp add: tick_pair)
  qed
  have "pos (capR (tick s now)) = Suc (pos (capR s)) \<and> f = frames (capR s) ! pos (capR s) \<and>
      pub_left (tick s now) = pub_left s \<and> pub_right (tick s now) = pub_right s \<and>
      \<not> context_ok (tick s now)"
    if "fst (read (capL s)) = None" "fst (read (capR s)) = Some f"
  proof -
    from that(1) have "end_of_stream s" by (simp add: end_of_stream_def)
    with read_ok_pos [OF that(2)] show ?thesis by (simp add: tick_eos)
  qed
  moreover have "pos (capL (tick s now)) = Suc (pos (capL s)) \<and> f = frames (capL s) ! pos (capL s) \<and>
      pub_left (tick s now) = pub_left s \<and> pub_right (tick s now) = pub_right s \<and>
      \<not> context_ok (tick s now)"
    if "fst (read (capR s)) = None" "fst (read (capL s)) = Some f"
  proof -
    from that(1) have "end_of_stream s" by (simp add: end_of_stream_def)
    with read_ok_pos [OF that(2)] show ?thesis by (simp add: tick_eos)
  qed
  ultimately show ?thesis using caps by blast
qed

theorem tick_reads_both_sources_first_witness:
  "fst (read (capL left_used_up)) = None \<and> fst (read (capR left_used_up)) = Some 22 \<and>
   pos (capR left_used_up) = 2 \<and> pos (capR (tick left_used_up 7)) = 3 \<and>
   pub_right (tick left_used_up 7) = [right_msg 5 20, right_msg 6 21]"
proof -
  have p: "pos (capR left_used_up) = 2"
    "pub_right left_used_up = [right_msg 5 20, right_msg 6 21]"
    by (simp_all add: left_used_up_def node_at_def)
  from tick_reads_both_sources_first [of left_used_up 7 22] left_used_up_reads(2,3)
  have "pos (capR (tick left_used_up 7)) = Suc (pos (capR left_used_up)) \<and>
      pub_right (tick left_used_up 7) = pub_right left_used_up"
    by blast
  with p left_used_up_reads(2,3) show ?thesis by simp
qed

text \<open>
  C7. With start frame 3, a left file of five frames and a right file of ten, the
  constructor seeks both handles to position 3. The first tick publishes the pair of
  frames 3 while \<open>frame_idx\<close> is 3, the second the pair of frames 4 while it is 4. In the
  third tick the left read reports the end of the stream while the right read still
  returns frame 5: nothing is published, the context is shut down and \<open>spin\<close> returns,
  however many timer firings remain. Two pairs are out, and the right source still has
  frames (its next read would return frame 6).
\<close>

theorem scenario_start3_left5_right10:
  fixes l0 l1 l2 l3 l4 r0 r1 r2 r3 r4 r5 r6 r7 r8 r9 :: frame
  shows "\<exists>n0 n1 n2 n3.
     StereoVideoPublisher_init (stereo_parameters rate 3) (\<lambda>p. p)
       (two_files [l0, l1, l2, l3, l4] [r0, r1, r2, r3, r4, r5, r6, r7, r8, r9]) = Inr n0 \<and>
     tick n0 t1 = n1 \<and> tick n1 t2 = n2 \<and> tick n2 t3 = n3 \<and>
     spin n0 (t1 # t2 # t3 # ts) = n3 \<and>
     context_ok n0 \<and> context_ok n1 \<and> context_ok n2 \<and> \<not> context_ok n3 \<and>
     frame_idx n0 = 3 \<and> frame_idx n1 = 4 \<and> frame_idx n2 = 5 \<and> frame_idx n3 = 5 \<and>
     pub_left n0 = [] \<and> pub_right n0 = [] \<and>
     pub_left n1 = [left_msg t1 l3] \<and> pub_right n1 = [right_msg t1 r3] \<and>
     pub_left n2 = [left_msg t1 l3, left_msg t2 l4] \<and>
     pub_right n2 = [right_msg t1 r3, right_msg t2 r4] \<and>
     pub_left n3 = pub_left n2 \<and> pub_right n3 = pub_right n2 \<and>
     fst (read (capL n2)) = None \<and> fst (read (capR n2)) = Some r5 \<and>
     pos (capL n3) = 5 \<and> pos (capR n3) = 6 \<and> fst (read (capR n3)) = Some r6 \<and>
     main (stereo_parameters rate 3) (\<lambda>p. p)
       (two_files [l0, l1, l2, l3, l4] [r0, r1, r2, r3, r4, r5, r6, r7, r8, r9])
       (t1 # t2 # t3 # ts) =
       \<lparr>raised = None,
        handles = [\<lparr>opened = False, frames = [l0, l1, l2, l3, l4], pos = 5\<rparr>,
                   \<lparr>opened = False, frames = [r0, r1, r2, r3, r4, r5, r6, r7, r8, r9], pos = 6\<rparr>],
        left_topic = [left_msg t1 l3, left_msg t2 l4],
        right_topic = [right_msg t1 r3, right_msg t2 r4],
        final_context_ok = False\<rparr>"
proof -
  let ?L = "[l0, l1, l2, l3, l4]"
  let ?R = "[r0, r1, r2, r3, r4, r5, r6, r7, r8, r9]"
  let ?ps = "stereo_parameters rate 3"
  obtain d where d: "compute_dt (p_rate_hz ?ps) = Inr d"
    using compute_dt_returns by blast
  define n0 where "n0 =
    \<lparr>rate_hz = rate, start_frame = 3, left_path = ''left.mp4'', right_path = ''right.mp4'',
     pub_left = [], pub_right = [],
     capL = \<lparr>opened = True, frames = ?L, pos = 3\<rparr>,
     capR = \<lparr>opened = True, frames = ?R, pos = 3\<rparr>,
     dt = d, frame_idx = 3,
     logger = [Started, LeftPath ''left.mp4'', RightPath ''right.mp4'', PublishingAt rate 3],
     context_ok = True\<rparr>"
  have i: "StereoVideoPublisher_init ?ps (\<lambda>p. p) (two_files ?L ?R) = Inr n0"
    using init_ok [where ps = ?ps and expanduser = "\<lambda>p. p" and files = "two_files ?L ?R",
        OF two_files_paths(1-4) d]
    by (simp add: n0_def two_files_paths(5,6)) (simp add: stereo_parameters_def)
  define n1 where "n1 = n0\<lparr>capL := \<lparr>opened = True, frames = ?L, pos = 4\<rparr>,
     capR := \<lparr>opened = True, frames = ?R, pos = 4\<rparr>,
     pub_left := [left_msg t1 l3], pub_right := [right_msg t1 r3], frame_idx := 4\<rparr>"
  define n2 where "n2 = n1\<lparr>capL := \<lparr>opened = True, frames = ?L, pos = 5\<rparr>,
     capR := \<lparr>opened = True, frames = ?R, pos = 5\<rparr>,
     pub_left := [left_msg t1 l3, left_msg t2 l4],
     pub_right := [right_msg t1 r3, right_msg t2 r4], frame_idx := 5\<rparr>"
  define n3 where "n3 = n2\<lparr>capR := \<lparr>opened = True, frames = ?R, pos = 6\<rparr>,
     logger := logger n2 @ [EndOfVideo], context_ok := False\<rparr>"
  have r0: "fst (read (capL n0)) = Some l3" "fst (read (capR n0)) = Some r3"
    by (simp_all add: n0_def read_def)
  have s1: "tick n0 t1 = n1"
    by (simp add: tick_pair [OF r0]) (simp add: n0_def n1_def read_def left_msg_def right_msg_def)
  have r1: "fst (read (capL n1)) = Some l4" "fst (read (capR n1)) = Some r4"
    by (simp_all add: n1_def read_def)
  have s2: "tick n1 t2 = n2"
    by (simp add: tick_pair [OF r1])
      (simp add: n0_def n1_def n2_def read_def left_msg_def right_msg_def)
  have r2: "fst (read (capL n2)) = None" "fst (read (capR n2)) = Some r5"
    by (simp_all add: n2_def read_def)
  then have e2: "end_of_stream n2" by (simp add: end_of_stream_def)
  have s3: "tick n2 t3 = n3"
    by (simp add: tick_eos [OF e2]) (simp add: n0_def n1_def n2_def n3_def read_def)
  have oks: "context_ok n0" "context_ok n1" "context_ok n2" "\<not> context_ok n3"
    by (simp_all add: n0_def n1_def n2_def n3_def)
  have sp: "spin n0 (t1 # t2 # t3 # ts) = n3"
    using oks by (simp add: s1 s2 s3 spin_stopped)
  have m: "main ?ps (\<lambda>p. p) (two_files ?L ?R) (t1 # t2 # t3 # ts) =
       \<lparr>raised = None,
        handles = [\<lparr>opened = False, frames = ?L, pos = 5\<rparr>,
                   \<lparr>opened = False, frames = ?R, pos = 6\<rparr>],
        left_topic = [left_msg t1 l3, left_msg t2 l4],
        right_topic = [right_msg t1 r3, right_msg t2 r4],
        final_context_ok = False\<rparr>"
    unfolding main_def i sum.case sp Let_def
    by (simp add: n0_def n1_def n2_def n3_def release_def)
  have rest: "frame_idx n0 = 3 \<and> frame_idx n1 = 4 \<and> frame_idx n2 = 5 \<and> frame_idx n3 = 5 \<and>
     pub_left n0 = [] \<and> pub_right n0 = [] \<and>
     pub_left n1 = [left_msg t1 l3] \<and> pub_right n1 = [right_msg t1 r3] \<and>
     pub_left n2 = [left_msg t1 l3, left_msg t2 l4] \<and>
     pub_right n2 = [right_msg t1 r3, right_msg t2 r4] \<and>
     pub_left n3 = pub_left n2 \<and> pub_right n3 = pub_right n2 \<and>
     pos (capL n3) = 5 \<and> pos (capR n3) = 6 \<and> fst (read (capR n3)) = Some r6"
    by (simp add: n0_def n1_def n2_def n3_def read_def)
  show ?thesis
    using i s1 s2 s3 sp oks r2 m rest by blast
qed

theorem scenario_start3_left5_right10_witness:
  "main (stereo_parameters (Finite 10) 3) (\<lambda>p. p)
     (two_files [50, 51, 52, 53, 54] [60, 61, 62, 63, 64, 65, 66, 67, 68, 69])
     [100, 200, 300, 400] =
     \<lparr>raised = None,
      handles = [\<lparr>opened = False, frames = [50, 51, 52, 53, 54], pos = 5\<rparr>,
                 \<lparr>opened = False, frames = [60, 61, 62, 63, 64, 65, 66, 67, 68, 69], pos = 6\<rparr>],
      left_topic = [left_msg 100 53, left_msg 200 54],
      right_topic = [right_msg 100 63, right_msg 200 64],
      final_context_ok = False\<rparr>"
  using scenario_start3_left5_right10
    [of "Finite 10" 50 51 52 53 54 60 61 62 63 64 65 66 67 68 69 100 200 300 "[400]"]
  by blast

text \<open>
  C8. When the left file opens and the right one does not, the constructor raises
  \<^verbatim>\<open>Cannot open right video\<close> and no node exists, so the node never runs. The claim
  also asks for the opened handle to be released before the abort is over. \<^verbatim>\<open>main\<close>
  constructs the node outside its \<^verbatim>\<open>try\<close>, so the \<^verbatim>\<open>finally\<close> block with the two
  \<^verbatim>\<open>release\<close> calls is not reached: at the end of \<^verbatim>\<open>main\<close> the left handle is still
  open. The theorem evaluates the code on such a start.
\<close>

theorem main_open_failure_leaves_handle_open:
  assumes "p_left_video ps \<noteq> []" and "p_right_video ps \<noteq> []"
    and "files (expanduser (p_left_video ps)) = Some fl"
    and "files (expanduser (p_right_video ps)) = None"
  shows "StereoVideoPublisher_init ps expanduser files =
           Inl (RuntimeError (''Cannot open right video: '' @ expanduser (p_right_video ps)),
                [\<lparr>opened = True, frames = fl, pos = 0\<rparr>,
                 \<lparr>opened = False, frames = [], pos = 0\<rparr>]) \<and>
         main ps expanduser files clock =
           \<lparr>raised = Some (RuntimeError
                (''Cannot open right video: '' @ expanduser (p_right_video ps))),
            handles = [\<lparr>opened = True, frames = fl, pos = 0\<rparr>,
                       \<lparr>opened = False, frames = [], pos = 0\<rparr>],
            left_topic = [], right_topic = [], final_context_ok = True\<rparr> \<and>
         isOpened (hd (handles (main ps expanduser files clock)))"
  using assms
  by (simp add: main_def StereoVideoPublisher_init_def Let_def VideoCapture_open_def isOpened_def)

theorem main_open_failure_leaves_handle_open_witness:
  "main (stereo_parameters (Finite 10) 0) (\<lambda>p. p)
     (\<lambda>p. if p = ''left.mp4'' then Some [10, 11] else None) [1, 2, 3] =
     \<lparr>raised = Some (RuntimeError ''Cannot open right video: right.mp4''),
      handles = [\<lparr>opened = True, frames = [10, 11], pos = 0\<rparr>,
                 \<lparr>opened = False, frames = [], pos = 0\<rparr>],
      left_topic = [], right_topic = [], final_context_ok = True\<rparr>"
proof -
  have h: "p_left_video (stereo_parameters (Finite 10) 0) \<noteq> []"
    "p_right_video (stereo_parameters (Finite 10) 0) \<noteq> []"
    "(\<lambda>p. if p = ''left.mp4'' then Some [10, 11] else None)
       (p_left_video (stereo_parameters (Finite 10) 0)) = Some [10, 11]"
    "(\<lambda>p. if p = ''left.mp4'' then Some [10, 11] else None)
       (p_right_video (stereo_parameters (Finite 10) 0)) = None"
    by (simp_all add: stereo_parameters_def)
  have r: "p_right_video (stereo_parameters (Finite 10) 0) = ''right.mp4''"
    by (simp add: stereo_parameters_def)
  from main_open_failure_leaves_handle_open
    [where ps = "stereo_parameters (Finite 10) 0" and expanduser = "\<lambda>p. p"
       and files = "\<lambda>p. if p = ''left.mp4'' then Some [10, 11] else None"
       and fl = "[10, 11]" and clock = "[1, 2, 3]", OF h]
  show ?thesis by (simp add: r)
qed

text \<open>
  C9. When the left or the right path parameter is empty (a parameter that is not
  passed has the default, the empty string), the constructor raises before any capture
  handle is constructed, \<^verbatim>\<open>main\<close> ends with that exception and with nothing opened or
  published, and the message of the exception names the parameters \<^verbatim>\<open>left_video\<close>
  and \<^verbatim>\<open>right_video\<close>.
\<close>

theorem missing_path_fails_before_any_source:
  assumes "p_left_video ps = [] \<or> p_right_video ps = []"
  shows "\<exists>msg. StereoVideoPublisher_init ps expanduser files = Inl (RuntimeError msg, []) \<and>
           main ps expanduser files clock =
             \<lparr>raised = Some (RuntimeError msg), handles = [],
              left_topic = [], right_topic = [], final_context_ok = True\<rparr> \<and>
           sublist ''left_video'' msg \<and> sublist ''right_video'' msg"
proof -
  have "StereoVideoPublisher_init ps expanduser files =
      Inl (RuntimeError ''You must pass left_video and right_video parameters.'', [])"
    using assms by (auto simp: StereoVideoPublisher_init_def Let_def)
  then show ?thesis
    using config_message_names_parameters by (simp add: main_def)
qed

theorem missing_path_fails_before_any_source_witness:
  "(p_left_video \<lparr>p_left_video = [], p_right_video = ''right.mp4'', p_rate_hz = Finite 10,
       p_start_frame = 0\<rparr> = [] \<or>
    p_right_video \<lparr>p_left_video = [], p_right_video = ''right.mp4'', p_rate_hz = Finite 10,
       p_start_frame = 0\<rparr> = []) \<and>
   raised (main \<lparr>p_left_video = [], p_right_video = ''right.mp4'', p_rate_hz = Finite 10,
       p_start_frame = 0\<rparr> (\<lambda>p. p) (two_files [10, 11] [20, 21]) [1, 2]) =
     Some (RuntimeError ''You must pass left_video and right_video parameters.'') \<and>
   handles (main \<lparr>p_left_video = [], p_right_video = ''right.mp4'', p_rate_hz = Finite 10,
       p_start_frame = 0\<rparr> (\<lambda>p. p) (two_files [10, 11] [20, 21]) [1, 2]) = []"
proof -
  let ?ps = "\<lparr>p_left_video = [], p_right_video = ''right.mp4'', p_rate_hz = Finite 10,
       p_start_frame = 0\<rparr>"
  have h: "p_left_video ?ps = [] \<or> p_right_video ?ps = []" by simp
  have i: "StereoVideoPublisher_init ?ps (\<lambda>p. p) (two_files [10, 11] [20, 21]) =
      Inl (RuntimeError ''You must pass left_video and right_video parameters.'', [])"
    by (simp add: StereoVideoPublisher_init_def)
  from missing_path_fails_before_any_source
    [where ps = ?ps and expanduser = "\<lambda>p. p" and files = "two_files [10, 11] [20, 21]"
       and clock = "[1, 2]", OF h]
  obtain msg where
    "StereoVideoPublisher_init ?ps (\<lambda>p. p) (two_files [10, 11] [20, 21]) =
       Inl (RuntimeError msg, [])"
    "main ?ps (\<lambda>p. p) (two_files [10, 11] [20, 21]) [1, 2] =
       \<lparr>raised = Some (RuntimeError msg), handles = [],
        left_topic = [], right_topic = [], final_context_ok = True\<rparr>"
    by blast
  with i h show ?thesis by simp
qed

end
